theory Spec2Isabelle
  imports Complex_Main "HOL-Library.Word" "HOL-Library.Log_Nat"
begin

section \<open>PARIS player/exporter: parser and PCM synthesizer\<close>

text \<open>
  A shallow embedding of \<^verbatim>\<open>parse_paris\<close> and \<^verbatim>\<open>synthesize_pcm16\<close> of
  \<^verbatim>\<open>paris_player_exporter.py\<close>.

  Modelling decisions:
  \<^item> Python \<^verbatim>\<open>int\<close> is \<^typ>\<open>int\<close>. \<^verbatim>\<open>bytes\<close> and \<^verbatim>\<open>bytearray\<close> are lists of
    8-bit words. An exception is a value of type \<open>error\<close>; a function that can
    raise returns \<open>error + 'a\<close>.
  \<^item> The synthesizer is given with two arithmetics. In the functions named \<open>..._b64\<close>
    a Python \<^verbatim>\<open>float\<close> is an IEEE binary64 value, held as the real number it
    denotes: every multiplication, division and subtraction rounds its exact result to
    the nearest binary64 value, ties to even (\<open>round64\<close>), an \<^verbatim>\<open>int\<close> is converted
    the same way, and a conversion or a product beyond the binary64 range is the
    \<^verbatim>\<open>OverflowError\<close> that line 72 raises. \<^verbatim>\<open>math.pi\<close> is the binary64 constant;
    \<^verbatim>\<open>math.sin\<close> and \<^verbatim>\<open>math.cos\<close> are the platform's C library, a parameter
    (\<open>libm\<close>) of the model. This is the program.
    In the functions without the suffix the same code is read with exact arithmetic over
    the reals (\<^term>\<open>sin\<close>, \<^term>\<open>cos\<close>, \<^term>\<open>pi\<close>): the formulas as the
    specification writes them. The two differ by rounding, for instance in the length of
    an 85 ms segment at 44100 Hz (lemma \<open>example_binary64_rounding\<close>).
  \<^item> Not modelled: signed zeros, NaN and infinities inside the tone loop (its operands
    stay finite unless the running index exceeds \<open>10^300\<close>), and the limits of memory:
    the buffer is an unbounded list, so \<^verbatim>\<open>MemoryError\<close> and the error of a buffer
    longer than the platform's largest index do not occur.
  \<^item> text is a list of characters with code points below 256; \<^verbatim>\<open>parse_paris\<close>
    is modelled from the point where the file has been opened and decoded, on the
    list of its lines.
\<close>

subsection \<open>Python primitives\<close>

type_synonym byte = "8 word"

datatype error = ValueError string | StructError | OverflowError

text \<open>\<^verbatim>\<open>int(x)\<close> on a float: truncation toward zero.\<close>

definition py_int :: "real \<Rightarrow> int" where
  "py_int x = (if 0 \<le> x then \<lfloor>x\<rfloor> else \<lceil>x\<rceil>)"

text \<open>\<^verbatim>\<open>round(x)\<close> on a float, one argument: nearest integer, ties to the even one.\<close>

definition py_round :: "real \<Rightarrow> int" where
  "py_round x =
     (let f = \<lfloor>x\<rfloor>; d = x - of_int f
      in if d < 1 / 2 then f
         else if 1 / 2 < d then f + 1
         else if even f then f else f + 1)"

text \<open>\<^verbatim>\<open>range(n)\<close>: the integers from 0 up to \<open>n - 1\<close>, none when \<open>n \<le> 0\<close>.\<close>

definition py_range :: "int \<Rightarrow> int list" where
  "py_range n = [0..n - 1]"

text \<open>
  \<^verbatim>\<open>struct.pack('<h', s)\<close>: the two bytes of the 16-bit two's complement of \<open>s\<close>,
  low byte first; \<^verbatim>\<open>struct.error\<close> when \<open>s\<close> is not a signed 16-bit value.
\<close>

definition le16 :: "int \<Rightarrow> byte list" where
  "le16 s = (let w = (word_of_int s :: 16 word) in [ucast w, ucast (drop_bit 8 w)])"

definition pack_h :: "int \<Rightarrow> error + byte list" where
  "pack_h s = (if - 32768 \<le> s \<and> s \<le> 32767 then Inr (le16 s) else Inl StructError)"

text \<open>
  Reading a buffer back as little-endian signed 16-bit samples
  (\<^verbatim>\<open>struct.unpack('<h', ...)\<close> on each pair of bytes); a trailing odd byte is
  not a sample.
\<close>

fun unpack_frames :: "byte list \<Rightarrow> int list" where
  "unpack_frames (lo # hi # rest) = sint (word_cat hi lo :: 16 word) # unpack_frames rest"
| "unpack_frames _ = []"

subsection \<open>The parser\<close>

text \<open>
  The string methods of Python that \<^verbatim>\<open>parse_paris\<close> calls, on code points below 256.
  \<^verbatim>\<open>str.strip()\<close> removes the characters for which \<^verbatim>\<open>str.isspace()\<close> holds.
\<close>

definition is_space :: "char \<Rightarrow> bool" where
  "is_space c =
     (let k = (of_char c :: nat)
      in (9 \<le> k \<and> k \<le> 13) \<or> (28 \<le> k \<and> k \<le> 32) \<or> k = 133 \<or> k = 160)"

definition strip :: "string \<Rightarrow> string" where
  "strip s = rev (dropWhile is_space (rev (dropWhile is_space s)))"

text \<open>\<^verbatim>\<open>str.lower()\<close>: the ASCII capitals and the Latin-1 capitals move down by 32.\<close>

definition lower_char :: "char \<Rightarrow> char" where
  "lower_char c =
     (let k = (of_char c :: nat)
      in if (65 \<le> k \<and> k \<le> 90) \<or> (192 \<le> k \<and> k \<le> 222 \<and> k \<noteq> 215)
         then char_of (k + 32) else c)"

definition lower :: "string \<Rightarrow> string" where
  "lower s = map lower_char s"

definition startswith :: "string \<Rightarrow> string \<Rightarrow> bool" where
  "startswith s p = (take (length p) s = p)"

text \<open>\<^verbatim>\<open>s.split(sep)\<close> with a one-character separator: always at least one field.\<close>

fun split :: "char \<Rightarrow> string \<Rightarrow> string list" where
  "split sep [] = [[]]"
| "split sep (c # cs) =
     (if c = sep then [] # split sep cs
      else (case split sep cs of
              [] \<Rightarrow> [[c]]
            | p # ps \<Rightarrow> (c # p) # ps))"

text \<open>
  \<^verbatim>\<open>int(s)\<close> on a string, base 10: surrounding whitespace, an optional sign, then
  decimal digits, where single underscores may stand between digits. \<open>None\<close> is the
  \<^verbatim>\<open>ValueError\<close> that the source catches. (The limit that recent interpreters put on
  the number of digits is not modelled.)
\<close>

definition is_digit :: "char \<Rightarrow> bool" where
  "is_digit c = (let k = (of_char c :: nat) in 48 \<le> k \<and> k \<le> 57)"

definition digit_value :: "char \<Rightarrow> int" where
  "digit_value c = int (of_char c) - 48"

fun digits_value :: "bool \<Rightarrow> int \<Rightarrow> string \<Rightarrow> int option" where
  "digits_value after_digit acc [] = (if after_digit then Some acc else None)"
| "digits_value after_digit acc (c # cs) =
     (if is_digit c then digits_value True (10 * acc + digit_value c) cs
      else if c = CHR ''_'' \<and> after_digit then digits_value False acc cs
      else None)"

definition int_of_str :: "string \<Rightarrow> int option" where
  "int_of_str s =
     (case strip s of
        [] \<Rightarrow> None
      | c # cs \<Rightarrow>
          if c = CHR ''-'' then map_option uminus (digits_value False 0 cs)
          else if c = CHR ''+'' then digits_value False 0 cs
          else digits_value False 0 (c # cs))"

text \<open>
  Lines 38 to 53: the body of the loop over the lines. \<open>None\<close> is a
  \<^verbatim>\<open>continue\<close> (the line is skipped), \<open>Some row\<close> is \<^verbatim>\<open>rows.append(row)\<close>.
\<close>

definition parse_line :: "string \<Rightarrow> (int \<times> int) option" where
  "parse_line line =
     (let ln = strip line
      in if ln = [] \<or> startswith ln ''#'' then None
         else if startswith (lower ln) ''duration_ms'' then None
         else (let parts = map strip (split CHR '','' ln)
               in if length parts \<noteq> 2 then None
                  else (case int_of_str (parts ! 0) of
                          None \<Rightarrow> None
                        | Some d \<Rightarrow>
                            (case int_of_str (parts ! 1) of
                               None \<Rightarrow> None
                             | Some v \<Rightarrow>
                                 (let v = (if v \<noteq> 0 then 1 else 0)
                                  in if 0 \<le> d then Some (d, v) else None)))))"

text \<open>Lines 35 to 56: the loop, with the list \<open>rows\<close> as its state, and the final check.\<close>

fun parse_loop :: "string list \<Rightarrow> (int \<times> int) list \<Rightarrow> (int \<times> int) list" where
  "parse_loop [] rows = rows"
| "parse_loop (line # rest) rows =
     (case parse_line line of
        None \<Rightarrow> parse_loop rest rows
      | Some row \<Rightarrow> parse_loop rest (rows @ [row]))"

definition parse_paris :: "string list \<Rightarrow> error + (int \<times> int) list" where
  "parse_paris lines =
     (let rows = parse_loop lines []
      in if rows = [] then Inl (ValueError ''No timing rows found in file.'') else Inr rows)"

subsection \<open>The synthesizer, with exact arithmetic\<close>

text \<open>The local variables of \<^verbatim>\<open>synthesize_pcm16\<close> after its clamping prologue.\<close>

record synth_env =
  samplerate :: int
  volume :: real
  freq_hz :: real
  ramp_samples :: int

text \<open>Lines 61 to 65: each parameter is clamped, the sample rate is truncated.\<close>

definition clamp_samplerate :: "real \<Rightarrow> int" where
  "clamp_samplerate sr = py_int (max 8000 (min 192000 sr))"

definition clamp_volume :: "real \<Rightarrow> real" where
  "clamp_volume v = max 0 (min 1 v)"

definition clamp_freq :: "real \<Rightarrow> real" where
  "clamp_freq f = max 50 (min 6000 f)"

definition clamp_ramp :: "real \<Rightarrow> real" where
  "clamp_ramp r = max 0 (min 50 r)"

definition ramp_samples_of :: "int \<Rightarrow> real \<Rightarrow> int" where
  "ramp_samples_of sr r = py_int (of_int sr * (r / 1000))"


text \<open>Line 72: the length of a segment in samples.\<close>

definition seg_len_of :: "int \<Rightarrow> int \<Rightarrow> int" where
  "seg_len_of sr dur_ms = py_round (of_int sr * (of_int dur_ms / 1000))"







subsection \<open>The samples of a schedule, as a list\<close>



subsection \<open>Binary64 arithmetic\<close>

text \<open>
  A finite binary64 value is held as the real number it denotes. \<open>exponent x\<close> is
  the integer \<open>e\<close> with \<open>2^e \<le> |x| < 2^(e+1)\<close>, computed from bit lengths.
  \<open>round64\<close> rounds a real to the nearest binary64 value, ties to even: the
  significand has 53 bits, so the spacing at \<open>x\<close> is \<open>2^(e - 52)\<close>, and never less
  than the subnormal spacing \<open>2^(-1074)\<close>. A result that rounds to \<open>2^1024\<close> or beyond
  (from \<open>2^1024 - 2^970\<close> on) is out of range.
\<close>

definition pow2 :: "int \<Rightarrow> real" where
  "pow2 q = (if 0 \<le> q then 2 ^ nat q else 1 / 2 ^ nat (- q))"

definition exponent :: "real \<Rightarrow> int" where
  "exponent x =
     (if 1 \<le> \<bar>x\<bar> then bitlen \<lfloor>\<bar>x\<bar>\<rfloor> - 1
      else - bitlen (\<lceil>1 / \<bar>x\<bar>\<rceil> - 1))"

definition round64 :: "real \<Rightarrow> real" where
  "round64 x =
     (if x = 0 then 0
      else (let q = max (exponent x - 52) (- 1074)
            in of_int (py_round (x / pow2 q)) * pow2 q))"

definition overflows :: "real \<Rightarrow> bool" where
  "overflows x = (2 ^ 1024 - 2 ^ 970 \<le> \<bar>x\<bar>)"

text \<open>
  The float operations of the source: each is the exact operation followed by
  \<open>round64\<close>. \<open>float_of_int\<close> is the conversion of an \<^verbatim>\<open>int\<close> operand in mixed
  arithmetic. \<open>binary64 x\<close> says that \<open>x\<close> is a binary64 value.
\<close>

definition fmul :: "real \<Rightarrow> real \<Rightarrow> real" where
  "fmul x y = round64 (x * y)"

definition fdiv :: "real \<Rightarrow> real \<Rightarrow> real" where
  "fdiv x y = round64 (x / y)"

definition fsub :: "real \<Rightarrow> real \<Rightarrow> real" where
  "fsub x y = round64 (x - y)"

definition float_of_int :: "int \<Rightarrow> real" where
  "float_of_int k = round64 (of_int k)"


text \<open>\<^verbatim>\<open>math.pi\<close>, and the C library behind \<^verbatim>\<open>math.sin\<close> and \<^verbatim>\<open>math.cos\<close>.\<close>

definition pi64 :: real where
  "pi64 = 7074237752028440 / 2 ^ 51"

record libm =
  math_sin :: "real \<Rightarrow> real"
  math_cos :: "real \<Rightarrow> real"

text \<open>One such library, correctly rounded; it stands for the platform in closed examples.\<close>

definition libm_rounded :: libm where
  "libm_rounded = \<lparr>math_sin = (\<lambda>x. round64 (sin x)), math_cos = (\<lambda>x. round64 (cos x))\<rparr>"

subsection \<open>The synthesizer, in binary64\<close>

text \<open>
  Lines 61 to 65. The clamps compare and select, which is exact; \<^verbatim>\<open>float(...)\<close> of
  a clamped value changes its type only. Line 65 is
  \<^verbatim>\<open>int(samplerate * (ramp_ms / 1000.0))\<close>.
\<close>

definition ramp_samples_b64 :: "int \<Rightarrow> real \<Rightarrow> int" where
  "ramp_samples_b64 sr r = py_int (fmul (float_of_int sr) (fdiv r 1000))"

definition prologue_b64 :: "real \<Rightarrow> real \<Rightarrow> real \<Rightarrow> real \<Rightarrow> synth_env" where
  "prologue_b64 f sr v r =
     (let sr' = clamp_samplerate sr;
          v' = clamp_volume v;
          f' = clamp_freq f;
          r' = clamp_ramp r
      in \<lparr>samplerate = sr', volume = v', freq_hz = f', ramp_samples = ramp_samples_b64 sr' r'\<rparr>)"

text \<open>
  Line 72, \<^verbatim>\<open>int(round(samplerate * (dur_ms / 1000.0)))\<close>: the duration is converted
  (\<^verbatim>\<open>OverflowError\<close> beyond the range), divided, multiplied by the converted rate;
  \<^verbatim>\<open>round\<close> of an infinite product raises \<^verbatim>\<open>OverflowError\<close> too.
\<close>

definition seg_len_b64 :: "int \<Rightarrow> int \<Rightarrow> error + int" where
  "seg_len_b64 sr dur_ms =
     (if overflows (of_int dur_ms) then Inl OverflowError
      else (let x = float_of_int sr * fdiv (float_of_int dur_ms) 1000
            in if overflows x then Inl OverflowError
               else Inr (py_round (round64 x))))"

text \<open>
  Lines 80 to 89. \<^verbatim>\<open>math.pi * n / ramp_samples\<close> is \<open>(pi * n) / ramp_samples\<close>, with
  both integers converted.
\<close>

definition envelope_b64 :: "libm \<Rightarrow> int \<Rightarrow> int \<Rightarrow> int \<Rightarrow> real" where
  "envelope_b64 M rs seg_len n =
     (if 0 < rs then
        (if n < rs then
           fmul 0.5 (fsub 1 (math_cos M (fdiv (fmul pi64 (float_of_int n)) (float_of_int rs))))
         else if seg_len - n \<le> rs then
           (let k = seg_len - n
            in fmul 0.5 (fsub 1 (math_cos M (fdiv (fmul pi64 (float_of_int k)) (float_of_int rs)))))
         else 1)
      else 1)"

text \<open>
  Lines 90 and 91. \<^verbatim>\<open>volume * env * math.sin(two_pi * freq_hz * (t / samplerate))\<close>
  associates to the left; \<^verbatim>\<open>t / samplerate\<close> divides two integers, correctly rounded.
\<close>

definition quantize_b64 :: "real \<Rightarrow> int" where
  "quantize_b64 sample = py_int (fmul (max (- 1) (min 1 sample)) 32767)"

definition tone_value_b64 :: "libm \<Rightarrow> synth_env \<Rightarrow> real \<Rightarrow> int \<Rightarrow> int" where
  "tone_value_b64 M E env t =
     (let two_pi = fmul 2 pi64;
          sample = fmul (fmul (volume E) env)
                     (math_sin M (fmul (fmul two_pi (freq_hz E))
                                       (fdiv (of_int t) (of_int (samplerate E)))))
      in quantize_b64 sample)"

text \<open>Lines 71 to 97: the two loops and the function, as above.\<close>

fun tone_loop_b64 ::
  "libm \<Rightarrow> synth_env \<Rightarrow> int \<Rightarrow> int list \<Rightarrow> byte list \<times> int \<Rightarrow> error + byte list \<times> int" where
  "tone_loop_b64 M E seg_len [] (frames, t) = Inr (frames, t)"
| "tone_loop_b64 M E seg_len (n # ns) (frames, t) =
     (let env = envelope_b64 M (ramp_samples E) seg_len n;
          s = tone_value_b64 M E env t
      in case pack_h s of
           Inl e \<Rightarrow> Inl e
         | Inr b \<Rightarrow> tone_loop_b64 M E seg_len ns (frames @ b, t + 1))"

fun rows_loop_b64 ::
  "libm \<Rightarrow> synth_env \<Rightarrow> (int \<times> int) list \<Rightarrow> byte list \<times> int \<Rightarrow> error + byte list \<times> int" where
  "rows_loop_b64 M E [] (frames, t) = Inr (frames, t)"
| "rows_loop_b64 M E ((dur_ms, val) # rest) (frames, t) =
     (case seg_len_b64 (samplerate E) dur_ms of
        Inl e \<Rightarrow> Inl e
      | Inr seg_len \<Rightarrow>
          if seg_len \<le> 0 then rows_loop_b64 M E rest (frames, t)
          else if val = 1 then
            (case tone_loop_b64 M E seg_len (py_range seg_len) (frames, t) of
               Inl e \<Rightarrow> Inl e
             | Inr st \<Rightarrow> rows_loop_b64 M E rest st)
          else rows_loop_b64 M E rest
                 (frames @ concat (replicate (nat seg_len) [0, 0]), t + seg_len))"

definition synthesize_pcm16_b64 ::
  "libm \<Rightarrow> (int \<times> int) list \<Rightarrow> real \<Rightarrow> real \<Rightarrow> real \<Rightarrow> real \<Rightarrow> error + byte list \<times> int" where
  "synthesize_pcm16_b64 M rows f sr v r = rows_loop_b64 M (prologue_b64 f sr v r) rows ([], 0)"

subsection \<open>The samples of a schedule in binary64, as a list\<close>

text \<open>
  \<open>length_overflows\<close> is the condition under which line 72 raises. \<open>schedule_b64\<close>
  lists the samples that the loops write, or gives the error of the first row that
  raises.
\<close>

definition length_overflows :: "int \<Rightarrow> int \<Rightarrow> bool" where
  "length_overflows sr dur_ms =
     (overflows (of_int dur_ms) \<or> overflows (float_of_int sr * fdiv (float_of_int dur_ms) 1000))"

definition tone_samples_b64 :: "libm \<Rightarrow> synth_env \<Rightarrow> int \<Rightarrow> int \<Rightarrow> int list" where
  "tone_samples_b64 M E L t =
     map (\<lambda>n. tone_value_b64 M E (envelope_b64 M (ramp_samples E) L n) (t + n)) [0..L - 1]"

fun schedule_b64 :: "libm \<Rightarrow> synth_env \<Rightarrow> int \<Rightarrow> (int \<times> int) list \<Rightarrow> error + int list" where
  "schedule_b64 M E t [] = Inr []"
| "schedule_b64 M E t ((d, v) # rest) =
     (case seg_len_b64 (samplerate E) d of
        Inl e \<Rightarrow> Inl e
      | Inr L \<Rightarrow>
          if L \<le> 0 then schedule_b64 M E t rest
          else (case schedule_b64 M E (t + L) rest of
                  Inl e \<Rightarrow> Inl e
                | Inr xs \<Rightarrow>
                    Inr ((if v = 1 then tone_samples_b64 M E L t else replicate (nat L) 0) @ xs)))"

subsection \<open>Clamping, in the words of the specification\<close>

text \<open>
  The specification says that an out-of-range value is silently saturated to the
  nearest bound of its range. This is that operation, to be compared with the
  \<^verbatim>\<open>max(lo, min(hi, x))\<close> of the source.
\<close>

definition saturate :: "real \<Rightarrow> real \<Rightarrow> real \<Rightarrow> real" where
  "saturate lo hi x = (if x < lo then lo else if hi < x then hi else x)"

section \<open>Properties of the primitives and of the loops\<close>

lemma py_int_range:
  assumes "- of_int c \<le> x" "x \<le> of_int c"
  shows "- c \<le> py_int x \<and> py_int x \<le> c"
proof (cases "0 \<le> x")
  case True
  then have "py_int x = \<lfloor>x\<rfloor>" by (simp add: py_int_def)
  moreover have "\<lfloor>x\<rfloor> \<le> c" using assms(2) by (simp add: floor_le_iff) 
  moreover have "- c \<le> \<lfloor>x\<rfloor>" using assms(1) by (simp add: le_floor_iff)
  ultimately show ?thesis by simp
next
  case False
  then have "py_int x = \<lceil>x\<rceil>" by (simp add: py_int_def)
  moreover have "\<lceil>x\<rceil> \<le> c" using assms(2) by (simp add: ceiling_le_iff)
  moreover have "- c \<le> \<lceil>x\<rceil>" using assms(1) by (simp add: le_ceiling_iff)
  ultimately show ?thesis by simp
qed




lemma le16_length: "length (le16 s) = 2" by (simp add: le16_def Let_def)

lemma le16_zero: "le16 0 = [0, 0]" by (simp add: le16_def)

lemma word_cat_le16: "word_cat (ucast (drop_bit 8 w) :: 8 word) (ucast w :: 8 word) = (w :: 16 word)"
  by (rule bit_word_eqI) (auto simp: bit_simps)

lemma sint_int16: "- 32768 \<le> s \<Longrightarrow> s \<le> 32767 \<Longrightarrow> sint (word_of_int s :: 16 word) = s"
  by (simp add: int_word_sint)

lemma unpack_le16:
  assumes "- 32768 \<le> s" "s \<le> 32767"
  shows "unpack_frames (le16 s @ rest) = s # unpack_frames rest"
  using assms by (simp add: le16_def Let_def word_cat_le16 sint_int16)



lemma concat_zero_frames: "concat (replicate n [0, 0 :: byte]) = concat (map le16 (replicate n 0))"
  by (induction n) (simp_all add: le16_zero)


lemma length_concat_le16: "length (concat (map le16 xs)) = 2 * length xs"
  by (induction xs) (simp_all add: le16_length)


lemma unpack_frames_le16:
  "\<forall>s\<in>set xs. - 32768 \<le> s \<and> s \<le> 32767 \<Longrightarrow> unpack_frames (concat (map le16 xs)) = xs"
  by (induction xs) (simp_all add: unpack_le16)





lemma zero_frames: "concat (replicate n (le16 0)) = replicate (2 * n) 0"
  by (induction n) (simp_all add: le16_zero)

lemma clamp_samplerate_idem: "clamp_samplerate (of_int (clamp_samplerate sr)) = clamp_samplerate sr"
proof -
  let ?x = "max 8000 (min 192000 sr)"
  have "8000 \<le> ?x" "?x \<le> 192000" by auto
  then have "8000 \<le> \<lfloor>?x\<rfloor>" "\<lfloor>?x\<rfloor> \<le> 192000" by (simp_all add: le_floor_iff floor_le_iff)
  moreover have "clamp_samplerate sr = \<lfloor>?x\<rfloor>" by (simp add: clamp_samplerate_def py_int_def)
  ultimately show ?thesis
    by (simp add: clamp_samplerate_def py_int_def max_def min_def)
qed






lemma clamp_freq_saturate: "clamp_freq (saturate 50 6000 f) = clamp_freq f"
  by (simp add: clamp_freq_def saturate_def)

lemma clamp_volume_saturate: "clamp_volume (saturate 0 1 v) = clamp_volume v"
  by (simp add: clamp_volume_def saturate_def)

lemma clamp_ramp_saturate: "clamp_ramp (saturate 0 50 r) = clamp_ramp r"
  by (simp add: clamp_ramp_def saturate_def)

lemma clamp_samplerate_floor: "clamp_samplerate sr = \<lfloor>saturate 8000 192000 sr\<rfloor>"
proof -
  have "max 8000 (min 192000 sr) = saturate 8000 192000 sr"
    by (simp add: saturate_def max_def min_def)
  moreover have "0 \<le> max 8000 (min 192000 sr)" by simp
  ultimately show ?thesis by (simp add: clamp_samplerate_def py_int_def)
qed

lemma clamp_samplerate_saturate:
  "clamp_samplerate (of_int \<lfloor>saturate 8000 192000 sr\<rfloor>) = clamp_samplerate sr"
  using clamp_samplerate_idem[of sr] by (simp add: clamp_samplerate_floor)

lemma clamp_freq_is_saturate: "clamp_freq f = saturate 50 6000 f"
  by (simp add: clamp_freq_def saturate_def max_def min_def)

lemma clamp_volume_is_saturate: "clamp_volume v = saturate 0 1 v"
  by (simp add: clamp_volume_def saturate_def max_def min_def)

lemma clamp_ramp_is_saturate: "clamp_ramp r = saturate 0 50 r"
  by (simp add: clamp_ramp_def saturate_def max_def min_def)


lemma parse_loop_eq: "parse_loop lines rows = rows @ List.map_filter parse_line lines"
  by (induction lines arbitrary: rows) (simp_all add: map_filter_simps split: option.splits)

lemma parse_paris_eq:
  "parse_paris lines =
     (if List.map_filter parse_line lines = []
      then Inl (ValueError ''No timing rows found in file.'')
      else Inr (List.map_filter parse_line lines))"
  by (simp add: parse_paris_def parse_loop_eq Let_def)

lemma map_filter_append: "List.map_filter f (xs @ ys) = List.map_filter f xs @ List.map_filter f ys"
  by (simp add: List.map_filter_def)

lemma map_filter_skip:
  "f l = None \<Longrightarrow> List.map_filter f (pre @ l # post) = List.map_filter f (pre @ post)"
  by (simp add: map_filter_append map_filter_simps)

lemma parse_line_blank: "strip line = [] \<Longrightarrow> parse_line line = None"
  by (simp add: parse_line_def Let_def)

lemma parse_line_comment: "startswith (strip line) ''#'' \<Longrightarrow> parse_line line = None"
  by (simp add: parse_line_def Let_def)

lemma parse_line_header: "startswith (lower (strip line)) ''duration_ms'' \<Longrightarrow> parse_line line = None"
  by (simp add: parse_line_def Let_def)

lemma parse_line_field_count:
  "length (split CHR '','' (strip line)) \<noteq> 2 \<Longrightarrow> parse_line line = None"
  by (simp add: parse_line_def Let_def)

lemma parse_line_row: "parse_line line = Some (d, v) \<Longrightarrow> 0 \<le> d \<and> (v = 0 \<or> v = 1)"
  by (auto simp: parse_line_def Let_def split: if_splits option.splits)

section \<open>Properties of binary64 rounding and of the binary64 loops\<close>

lemma py_round_bounds: "\<lfloor>z\<rfloor> \<le> py_round z \<and> py_round z \<le> \<lceil>z\<rceil>"
proof -
  have "z - of_int \<lfloor>z\<rfloor> \<noteq> 0 \<Longrightarrow> \<lceil>z\<rceil> = \<lfloor>z\<rfloor> + 1"
    by (metis ceiling_altdef diff_eq_eq add.commute add_0 of_int_floor_cancel)
  moreover have "1 / 2 \<le> z - of_int \<lfloor>z\<rfloor> \<Longrightarrow> z - of_int \<lfloor>z\<rfloor> \<noteq> 0" by linarith
  ultimately show ?thesis
    by (auto simp: py_round_def Let_def)
qed

lemma py_round_abs_le:
  assumes "\<bar>z\<bar> \<le> of_int K"
  shows "\<bar>py_round z\<bar> \<le> K"
proof -
  have "\<lceil>z\<rceil> \<le> K" using assms by (simp add: ceiling_le_iff abs_le_iff)
  moreover have "- K \<le> \<lfloor>z\<rfloor>" using assms by (simp add: le_floor_iff abs_le_iff)
  ultimately show ?thesis using py_round_bounds[of z] by linarith
qed

lemma exponent_le:
  assumes "\<bar>x\<bar> < 2 ^ k"
  shows "exponent x \<le> int k"
proof (cases "1 \<le> \<bar>x\<bar>")
  case True
  let ?m = "\<lfloor>\<bar>x\<bar>\<rfloor>"
  have m: "0 < ?m" using True by linarith
  have "real_of_int ?m \<le> \<bar>x\<bar>" by linarith
  then have "real_of_int ?m < 2 ^ k" using assms by linarith
  then have "real_of_int ?m < real_of_int (2 ^ k)" by simp
  then have "?m < 2 ^ k" by (simp only: of_int_less_iff)
  then have "bitlen ?m \<le> int k"
    using m by (simp add: bitlen_le_iff_power)
  then show ?thesis using True by (simp add: exponent_def)
next
  case False
  then have "exponent x \<le> 0" using bitlen_nonneg by (simp add: exponent_def)
  then show ?thesis by linarith
qed

lemma round64_abs_le:
  assumes "\<bar>x\<bar> \<le> of_int N" and "N < 2 ^ 52"
  shows "\<bar>round64 x\<bar> \<le> of_int N"
proof (cases "x = 0")
  case True
  then show ?thesis using assms by (simp add: round64_def)
next
  case False
  define q where "q = max (exponent x - 52) (- 1074)"
  have "\<bar>x\<bar> < 2 ^ 52"
  proof -
    have "real_of_int N < real_of_int (2 ^ 52)" using assms(2) by (simp only: of_int_less_iff)
    with assms(1) show ?thesis by simp
  qed
  then have "exponent x \<le> 52" using exponent_le[of x 52] by simp
  then have q0: "q \<le> 0" by (simp add: q_def)
  have r: "round64 x = of_int (py_round (x / pow2 q)) * pow2 q"
    using False by (simp add: round64_def q_def Let_def)
  show ?thesis
  proof -
    define k where "k = nat (- q)"
    have p: "pow2 q = 1 / 2 ^ k" using q0 by (cases "q = 0") (simp_all add: pow2_def k_def)
    have "\<bar>x / pow2 q\<bar> = \<bar>x\<bar> * 2 ^ k" by (simp add: p abs_mult)
    also have "\<dots> \<le> of_int N * 2 ^ k" using assms(1) by (simp add: mult_right_mono)
    also have "\<dots> = of_int (N * 2 ^ k)" by simp
    finally have "\<bar>py_round (x / pow2 q)\<bar> \<le> N * 2 ^ k" by (rule py_round_abs_le)
    then have "real_of_int \<bar>py_round (x / pow2 q)\<bar> \<le> real_of_int (N * 2 ^ k)"
      by (simp only: of_int_le_iff)
    then have "\<bar>real_of_int (py_round (x / pow2 q))\<bar> \<le> of_int N * 2 ^ k"
      by simp
    then have "\<bar>real_of_int (py_round (x / pow2 q))\<bar> * (1 / 2 ^ k) \<le> of_int N * 2 ^ k * (1 / 2 ^ k)"
      by (intro mult_right_mono) simp_all
    then show ?thesis by (simp add: r p abs_mult)
  qed
qed

lemma quantize_b64_range: "- 32767 \<le> quantize_b64 x \<and> quantize_b64 x \<le> 32767"
proof -
  let ?c = "max (- 1) (min 1 x)"
  have "\<bar>?c * 32767\<bar> \<le> of_int 32767" by (auto simp: max_def min_def)
  then have "\<bar>round64 (?c * 32767)\<bar> \<le> of_int 32767"
    by (rule round64_abs_le) simp
  then have "- of_int 32767 \<le> fmul ?c 32767" "fmul ?c 32767 \<le> of_int 32767"
    by (simp_all add: fmul_def abs_le_iff)
  then show ?thesis unfolding quantize_b64_def by (rule py_int_range)
qed

lemma pack_h_tone_value_b64:
  "pack_h (tone_value_b64 M E env t) = Inr (le16 (tone_value_b64 M E env t))"
proof -
  obtain x where "tone_value_b64 M E env t = quantize_b64 x"
    by (simp add: tone_value_b64_def Let_def)
  then show ?thesis
    using quantize_b64_range[of x] by (simp add: pack_h_def)
qed

lemma tone_loop_b64_upto:
  "tone_loop_b64 M E L [a..b] (fr, t) =
     Inr (fr @ concat (map (\<lambda>n. le16 (tone_value_b64 M E (envelope_b64 M (ramp_samples E) L n)
                                     (t + (n - a)))) [a..b]),
          t + max 0 (b - a + 1))"
proof (induction a b arbitrary: fr t rule: upto.induct)
  case (1 i j)
  show ?case
  proof (cases "i \<le> j")
    case True
    let ?g = "\<lambda>u n. le16 (tone_value_b64 M E (envelope_b64 M (ramp_samples E) L n) u)"
    have eq: "[i..j] = i # [i + 1..j]" using True by (simp add: upto_rec1)
    have sh: "(\<lambda>n. ?g (t + 1 + (n - (i + 1))) n) = (\<lambda>n. ?g (t + (n - i)) n)"
      by (simp add: algebra_simps)
    have "tone_loop_b64 M E L [i..j] (fr, t) = tone_loop_b64 M E L [i + 1..j] (fr @ ?g t i, t + 1)"
      unfolding eq by (simp add: pack_h_tone_value_b64 Let_def)
    also have "\<dots> = Inr ((fr @ ?g t i) @ concat (map (\<lambda>n. ?g (t + 1 + (n - (i + 1))) n) [i + 1..j]),
          t + 1 + max 0 (j - (i + 1) + 1))"
      by (rule 1[OF True])
    also have "\<dots> = Inr (fr @ concat (map (\<lambda>n. ?g (t + (n - i)) n) (i # [i + 1..j])),
          t + max 0 (j - i + 1))"
      unfolding sh using True by simp
    finally show ?thesis unfolding eq[symmetric] .
  next
    case False
    then show ?thesis by simp
  qed
qed

lemma length_tone_samples_b64: "int (length (tone_samples_b64 M E L t)) = max 0 L"
  by (simp add: tone_samples_b64_def)

lemma tone_loop_b64_range:
  "tone_loop_b64 M E L (py_range L) (fr, t) =
     Inr (fr @ concat (map le16 (tone_samples_b64 M E L t)), t + max 0 L)"
  using tone_loop_b64_upto[of M E L 0 "L - 1" fr t]
  by (simp add: py_range_def tone_samples_b64_def comp_def)

lemma rows_loop_b64_eq:
  "rows_loop_b64 M E rows (fr, t) =
     (case schedule_b64 M E t rows of
        Inl e \<Rightarrow> Inl e
      | Inr xs \<Rightarrow> Inr (fr @ concat (map le16 xs), t + int (length xs)))"
proof (induction rows arbitrary: fr t)
  case Nil
  then show ?case by simp
next
  case (Cons row rows)
  obtain d v where row: "row = (d, v)" by (cases row)
  show ?case
  proof (cases "seg_len_b64 (samplerate E) d")
    case (Inl e)
    then show ?thesis by (simp add: row)
  next
    case (Inr L)
    show ?thesis
    proof (cases "L \<le> 0")
      case True
      then show ?thesis by (simp add: row Inr Cons.IH)
    next
      case pos: False
      show ?thesis
      proof (cases "v = 1")
        case True
        have len: "int (length (tone_samples_b64 M E L t)) = L"
          using pos by (simp add: length_tone_samples_b64)
        show ?thesis
          using pos True len
          by (simp add: row Inr tone_loop_b64_range Cons.IH split: sum.splits)
      next
        case False
        then show ?thesis
          using pos by (simp add: row Inr Cons.IH concat_zero_frames split: sum.splits)
      qed
    qed
  qed
qed

lemma synthesize_pcm16_b64_eq:
  "synthesize_pcm16_b64 M rows f sr v r =
     (case schedule_b64 M (prologue_b64 f sr v r) 0 rows of
        Inl e \<Rightarrow> Inl e
      | Inr xs \<Rightarrow> Inr (concat (map le16 xs), int (length xs)))"
  by (simp add: synthesize_pcm16_b64_def rows_loop_b64_eq split: sum.splits)

lemma seg_len_b64_eq:
  "seg_len_b64 sr d =
     (if length_overflows sr d then Inl OverflowError
      else Inr (py_round (fmul (float_of_int sr) (fdiv (float_of_int d) 1000))))"
  by (simp add: seg_len_b64_def length_overflows_def Let_def fmul_def)

lemma schedule_b64_overflow:
  "list_ex (\<lambda>row. length_overflows (samplerate E) (fst row)) rows \<Longrightarrow>
     schedule_b64 M E t rows = Inl OverflowError"
proof (induction rows arbitrary: t)
  case Nil
  then show ?case by simp
next
  case (Cons row rows)
  obtain d v where row: "row = (d, v)" by (cases row)
  show ?case
  proof (cases "length_overflows (samplerate E) d")
    case True
    then show ?thesis by (simp add: row seg_len_b64_eq)
  next
    case False
    with Cons.prems have "list_ex (\<lambda>row. length_overflows (samplerate E) (fst row)) rows"
      by (simp add: row)
    then have "\<And>t. schedule_b64 M E t rows = Inl OverflowError" by (rule Cons.IH)
    then show ?thesis using False by (simp add: row seg_len_b64_eq)
  qed
qed

lemma schedule_b64_returns:
  "\<not> list_ex (\<lambda>row. length_overflows (samplerate E) (fst row)) rows \<Longrightarrow>
     \<exists>xs. schedule_b64 M E t rows = Inr xs
        \<and> int (length xs) =
            (\<Sum>row\<leftarrow>rows. max 0 (py_round (fmul (float_of_int (samplerate E))
                                     (fdiv (float_of_int (fst row)) 1000))))"
proof (induction rows arbitrary: t)
  case Nil
  then show ?case by simp
next
  case (Cons row rows)
  obtain d v where row: "row = (d, v)" by (cases row)
  let ?L = "py_round (fmul (float_of_int (samplerate E)) (fdiv (float_of_int d) 1000))"
  from Cons.prems have no: "\<not> length_overflows (samplerate E) d"
    and rest: "\<not> list_ex (\<lambda>row. length_overflows (samplerate E) (fst row)) rows"
    by (simp_all add: row)
  have L: "seg_len_b64 (samplerate E) d = Inr ?L" using no by (simp add: seg_len_b64_eq)
  show ?case
  proof (cases "?L \<le> 0")
    case True
    with Cons.IH[OF rest, of t] show ?thesis by (simp add: row L)
  next
    case False
    from Cons.IH[OF rest, of "t + ?L"] obtain xs where
      xs: "schedule_b64 M E (t + ?L) rows = Inr xs"
      and len: "int (length xs) =
            (\<Sum>row\<leftarrow>rows. max 0 (py_round (fmul (float_of_int (samplerate E))
                                     (fdiv (float_of_int (fst row)) 1000))))"
      by blast
    show ?thesis
      using False by (simp add: row L xs len length_tone_samples_b64)
  qed
qed

lemma schedule_b64_append:
  "schedule_b64 M E t (xs @ ys) =
     (case schedule_b64 M E t xs of
        Inl e \<Rightarrow> Inl e
      | Inr a \<Rightarrow>
          (case schedule_b64 M E (t + int (length a)) ys of
             Inl e \<Rightarrow> Inl e
           | Inr b \<Rightarrow> Inr (a @ b)))"
proof (induction xs arbitrary: t)
  case Nil
  then show ?case by (simp split: sum.splits)
next
  case (Cons row xs)
  obtain d v where row: "row = (d, v)" by (cases row)
  show ?case
    by (simp add: row Cons.IH length_tone_samples_b64 add.assoc split: sum.splits)
qed

lemma synthesize_pcm16_b64_append:
  assumes "synthesize_pcm16_b64 M pre f sr v r = Inr (frames, t)"
  shows "synthesize_pcm16_b64 M (pre @ post) f sr v r =
     (case schedule_b64 M (prologue_b64 f sr v r) t post of
        Inl e \<Rightarrow> Inl e
      | Inr xs \<Rightarrow> Inr (frames @ concat (map le16 xs), t + int (length xs)))"
proof -
  let ?E = "prologue_b64 f sr v r"
  from assms obtain a where a: "schedule_b64 M ?E 0 pre = Inr a"
    and fr: "frames = concat (map le16 a)" and t: "t = int (length a)"
    by (auto simp: synthesize_pcm16_b64_eq split: sum.splits)
  show ?thesis
    by (simp add: synthesize_pcm16_b64_eq schedule_b64_append a fr t split: sum.splits)
qed

lemma samplerate_prologue_b64: "samplerate (prologue_b64 f sr v r) = clamp_samplerate sr"
  by (simp add: prologue_b64_def Let_def)

lemma overflow_rows_case:
  "list_ex (\<lambda>(dur_ms, val). length_overflows s dur_ms) rows
     = list_ex (\<lambda>row. length_overflows s (fst row)) rows"
  by (simp add: case_prod_unfold)


lemma synthesize_pcm16_b64_overflow:
  "list_ex (\<lambda>row. length_overflows (clamp_samplerate sr) (fst row)) rows \<Longrightarrow>
     synthesize_pcm16_b64 M rows f sr v r = Inl OverflowError"
  using schedule_b64_overflow[of "prologue_b64 f sr v r" rows M 0]
  by (simp add: synthesize_pcm16_b64_eq samplerate_prologue_b64)

lemma synthesize_pcm16_b64_returns:
  assumes "\<not> list_ex (\<lambda>row. length_overflows (clamp_samplerate sr) (fst row)) rows"
  shows "\<exists>xs. synthesize_pcm16_b64 M rows f sr v r = Inr (concat (map le16 xs), int (length xs))
     \<and> int (length xs) =
         (\<Sum>row\<leftarrow>rows. max 0 (py_round (fmul (float_of_int (clamp_samplerate sr))
                                  (fdiv (float_of_int (fst row)) 1000))))"
proof -
  from schedule_b64_returns[of "prologue_b64 f sr v r" rows M 0] assms
  obtain xs where "schedule_b64 M (prologue_b64 f sr v r) 0 rows = Inr xs"
    and "int (length xs) =
         (\<Sum>row\<leftarrow>rows. max 0 (py_round (fmul (float_of_int (clamp_samplerate sr))
                                  (fdiv (float_of_int (fst row)) 1000))))"
    unfolding samplerate_prologue_b64 by blast
  then show ?thesis
    by (intro exI[of _ xs]) (simp add: synthesize_pcm16_b64_eq)
qed

lemma prologue_b64_saturate:
  "prologue_b64 f sr v r =
     \<lparr>samplerate = \<lfloor>saturate 8000 192000 sr\<rfloor>,
      volume = saturate 0 1 v,
      freq_hz = saturate 50 6000 f,
      ramp_samples = py_int (fmul (float_of_int \<lfloor>saturate 8000 192000 sr\<rfloor>)
                                  (fdiv (saturate 0 50 r) 1000))\<rparr>"
  by (simp add: prologue_b64_def Let_def ramp_samples_b64_def clamp_samplerate_floor
      clamp_volume_is_saturate clamp_freq_is_saturate clamp_ramp_is_saturate)

lemma prologue_b64_idem:
  "prologue_b64 (saturate 50 6000 f) (of_int \<lfloor>saturate 8000 192000 sr\<rfloor>)
     (saturate 0 1 v) (saturate 0 50 r) = prologue_b64 f sr v r"
  by (simp add: prologue_b64_def clamp_freq_saturate clamp_volume_saturate clamp_ramp_saturate
      clamp_samplerate_saturate)

lemma saturate_range: "lo \<le> hi \<Longrightarrow> lo \<le> saturate lo hi x \<and> saturate lo hi x \<le> hi"
  by (simp add: saturate_def)

lemma synthesize_pcm16_b64_error_iff:
  "(\<exists>e. synthesize_pcm16_b64 M rows f sr v r = Inl e)
     = list_ex (\<lambda>row. length_overflows (clamp_samplerate sr) (fst row)) rows"
proof (cases "list_ex (\<lambda>row. length_overflows (clamp_samplerate sr) (fst row)) rows")
  case True
  then show ?thesis by (simp add: synthesize_pcm16_b64_overflow)
next
  case False
  from synthesize_pcm16_b64_returns[OF False, of M f v r] show ?thesis
    using False by auto
qed

lemma tone_segment_b64:
  assumes "synthesize_pcm16_b64 M pre f sr v r = Inr (frames, t)"
    and "seg_len_b64 (clamp_samplerate sr) d = Inr L"
  shows "synthesize_pcm16_b64 M (pre @ [(d, 1)]) f sr v r =
     Inr (frames @ concat (map le16 (tone_samples_b64 M (prologue_b64 f sr v r) L t)),
          t + max 0 L)"
proof (cases "L \<le> 0")
  case True
  then have "tone_samples_b64 M (prologue_b64 f sr v r) L t = []"
    by (simp add: tone_samples_b64_def)
  with True show ?thesis
    using assms(2) by (simp add: synthesize_pcm16_b64_append[OF assms(1)] samplerate_prologue_b64)
next
  case False
  then show ?thesis
    using assms(2)
    by (simp add: synthesize_pcm16_b64_append[OF assms(1)] samplerate_prologue_b64
        length_tone_samples_b64)
qed

lemma concat_le16_tone_samples_b64:
  "concat (map le16 (tone_samples_b64 M E L t)) =
     concat (map (\<lambda>n. le16 (tone_value_b64 M E (envelope_b64 M (ramp_samples E) L n) (t + n)))
       [0..L - 1])"
  by (simp add: tone_samples_b64_def comp_def)

lemma tone_value_b64_eq:
  "tone_value_b64 M (prologue_b64 f sr v r) env t =
     quantize_b64 (fmul (fmul (clamp_volume v) env)
       (math_sin M (fmul (fmul (fmul 2 pi64) (clamp_freq f))
                         (fdiv (of_int t) (of_int (clamp_samplerate sr))))))"
  by (simp add: tone_value_b64_def prologue_b64_def Let_def)

lemma ramp_samples_prologue_b64:
  "ramp_samples (prologue_b64 f sr v r) = ramp_samples_b64 (clamp_samplerate sr) (clamp_ramp r)"
  by (simp add: prologue_b64_def Let_def)

lemma synthesize_pcm16_b64_Nil: "synthesize_pcm16_b64 M [] f sr v r = Inr ([], 0)"
  by (simp add: synthesize_pcm16_b64_def)

lemma synthesize_pcm16_b64_length:
  "synthesize_pcm16_b64 M rows f sr v r = Inr (frames, t) \<Longrightarrow> int (length frames) = 2 * t"
  by (auto simp: synthesize_pcm16_b64_eq length_concat_le16 split: sum.splits)

lemma envelope_b64_with_ramp:
  "0 < rs \<Longrightarrow> envelope_b64 M rs L n =
     (if n < rs then
        fmul 0.5 (fsub 1 (math_cos M (fdiv (fmul pi64 (float_of_int n)) (float_of_int rs))))
      else if L - n \<le> rs then
        fmul 0.5 (fsub 1 (math_cos M (fdiv (fmul pi64 (float_of_int (L - n))) (float_of_int rs))))
      else 1)"
  by (simp add: envelope_b64_def Let_def)






lemma tone_samples_b64_range:
  "s \<in> set (tone_samples_b64 M E L t) \<Longrightarrow> - 32767 \<le> s \<and> s \<le> 32767"
  by (auto simp: tone_samples_b64_def tone_value_b64_def Let_def quantize_b64_range)

lemma schedule_b64_range:
  "schedule_b64 M E t rows = Inr xs \<Longrightarrow> s \<in> set xs \<Longrightarrow> - 32767 \<le> s \<and> s \<le> 32767"
proof (induction rows arbitrary: t xs)
  case Nil
  then show ?case by simp
next
  case (Cons row rows)
  obtain d v where row: "row = (d, v)" by (cases row)
  from Cons.prems show ?case
    by (auto simp: row split: sum.splits if_splits dest: tone_samples_b64_range Cons.IH)
qed

lemma synthesize_pcm16_b64_samples_range:
  assumes "synthesize_pcm16_b64 M rows f sr v r = Inr (frames, t)"
    and "s \<in> set (unpack_frames frames)"
  shows "- 32767 \<le> s \<and> s \<le> 32767"
proof -
  from assms(1) obtain xs where xs: "schedule_b64 M (prologue_b64 f sr v r) 0 rows = Inr xs"
    and fr: "frames = concat (map le16 xs)"
    by (auto simp: synthesize_pcm16_b64_eq split: sum.splits)
  have rng: "\<forall>s\<in>set xs. - 32767 \<le> s \<and> s \<le> 32767"
    using schedule_b64_range[OF xs] by blast
  then have "\<forall>s\<in>set xs. - 32768 \<le> s \<and> s \<le> 32767" by fastforce
  then have "unpack_frames frames = xs" unfolding fr by (rule unpack_frames_le16)
  with rng assms(2) show ?thesis by blast
qed

lemma synthesize_pcm16_b64_only_overflow:
  "synthesize_pcm16_b64 M rows f sr v r = Inl e \<Longrightarrow> e = OverflowError"
proof -
  assume a: "synthesize_pcm16_b64 M rows f sr v r = Inl e"
  then have "list_ex (\<lambda>row. length_overflows (clamp_samplerate sr) (fst row)) rows"
    using synthesize_pcm16_b64_error_iff[of M rows f sr v r] by blast
  then have "synthesize_pcm16_b64 M rows f sr v r = Inl OverflowError"
    by (rule synthesize_pcm16_b64_overflow)
  with a show ?thesis by simp
qed

subsection \<open>Evaluations at concrete inputs\<close>

lemma clamp_samplerate_44100: "clamp_samplerate 44100 = 44100"
  by (simp add: clamp_samplerate_def py_int_def)

lemma float_of_int_44100: "float_of_int 44100 = 44100"
  by code_simp

lemma seg_len_b64_44100_175: "seg_len_b64 44100 175 = Inr 7717"
proof -
  have a: "\<not> overflows (of_int 175)" by (simp add: overflows_def)
  have b: "fdiv (float_of_int 175) 1000 = 6305039478318694 / 2 ^ 55" by code_simp
  have c: "\<not> overflows (44100 * (6305039478318694 / 2 ^ 55))" by (simp add: overflows_def)
  have d: "py_round (round64 (44100 * (6305039478318694 / 2 ^ 55))) = 7717" by code_simp
  show ?thesis
    unfolding seg_len_b64_def Let_def float_of_int_44100 b using a c d by simp
qed

lemma seg_len_b64_44100_85: "seg_len_b64 44100 85 = Inr 3749"
proof -
  have a: "\<not> overflows (of_int 85)" by (simp add: overflows_def)
  have b: "fdiv (float_of_int 85) 1000 = 6124895493223875 / 2 ^ 56" by code_simp
  have c: "\<not> overflows (44100 * (6124895493223875 / 2 ^ 56))" by (simp add: overflows_def)
  have d: "py_round (round64 (44100 * (6124895493223875 / 2 ^ 56))) = 3749" by code_simp
  show ?thesis
    unfolding seg_len_b64_def Let_def float_of_int_44100 b using a c d by simp
qed






lemma seg_len_b64_44100_10: "seg_len_b64 44100 10 = Inr 441"
proof -
  have a: "\<not> overflows (of_int 10)" by (simp add: overflows_def)
  have b: "fdiv (float_of_int 10) 1000 = 5764607523034235 / 2 ^ 59" by code_simp
  have c: "\<not> overflows (44100 * (5764607523034235 / 2 ^ 59))" by (simp add: overflows_def)
  have d: "py_round (round64 (44100 * (5764607523034235 / 2 ^ 59))) = 441" by code_simp
  show ?thesis
    unfolding seg_len_b64_def Let_def float_of_int_44100 b using a c d by simp
qed

lemma clamp_samplerate_48000: "clamp_samplerate 48000 = 48000"
  by (simp add: clamp_samplerate_def py_int_def)

lemma float_of_int_48000: "float_of_int 48000 = 48000"
  by code_simp

lemma seg_len_b64_48000_30: "seg_len_b64 48000 30 = Inr 1440"
proof -
  have a: "\<not> overflows (of_int 30)" by (simp add: overflows_def)
  have b: "fdiv (float_of_int 30) 1000 = 8646911284551352 / 2 ^ 58" by code_simp
  have c: "\<not> overflows (48000 * (8646911284551352 / 2 ^ 58))" by (simp add: overflows_def)
  have d: "py_round (round64 (48000 * (8646911284551352 / 2 ^ 58))) = 1440" by code_simp
  show ?thesis
    unfolding seg_len_b64_def Let_def float_of_int_48000 b using a c d by simp
qed

lemma ramp_samples_b64_48000_9: "ramp_samples_b64 48000 9 = 431"
  by code_simp

lemma exact_ramp_48000_9: "py_int (48000 * (9 / 1000)) = 432"
  by (simp add: py_int_def)


lemma example_binary64_rounding:
  "seg_len_b64 44100 85 = Inr 3749" "seg_len_of 44100 85 = 3748"
  "seg_len_b64 44100 175 = Inr 7717" "seg_len_of 44100 175 = 7718"
  "ramp_samples_b64 48000 9 = 431" "ramp_samples_of 48000 9 = 432"
  by (simp_all add: seg_len_b64_44100_85 seg_len_b64_44100_175 ramp_samples_b64_48000_9
      seg_len_of_def ramp_samples_of_def py_round_def py_int_def Let_def)

section \<open>The claims\<close>




text \<open>
  C2. \<^verbatim>\<open>parse_paris\<close> raises its one error (the \<^verbatim>\<open>ValueError\<close> with the message
  "No timing rows found in file.", which the specification calls
  \<open>ParseError("no valid rows")\<close>) exactly when no line yields a valid row; the error
  carries the message only, never rows; otherwise the result is the list of the valid
  rows in order. A line that is skipped causes no error: the result is the same as
  without that line.
\<close>

theorem parse_error_iff_no_valid_rows:
  "parse_paris lines =
     (if List.map_filter parse_line lines = []
      then Inl (ValueError ''No timing rows found in file.'')
      else Inr (List.map_filter parse_line lines))
   \<and> ((\<exists>e. parse_paris lines = Inl e) \<longleftrightarrow> List.map_filter parse_line lines = [])
   \<and> (parse_line line = None \<longrightarrow> parse_paris (pre @ line # post) = parse_paris (pre @ post))"
  by (simp add: parse_paris_eq map_filter_skip)

theorem parse_error_iff_no_valid_rows_witness:
  "parse_paris [''# c'', ''duration_ms,value'', '''', ''abc,def'', ''1,2,3'', ''-5,1'']
     = Inl (ValueError ''No timing rows found in file.'')
   \<and> List.map_filter parse_line [''# c'', ''duration_ms,value'', '''', ''abc,def'', ''1,2,3'', ''-5,1''] = []
   \<and> parse_line ''# c'' = None
   \<and> parse_paris ([''100,1''] @ ''# c'' # [''50,0'']) = parse_paris ([''100,1''] @ [''50,0''])
   \<and> parse_paris ([''100,1''] @ [''50,0'']) = Inr [(100, 1), (50, 0)]"
proof -
  have n: "parse_line ''# c'' = None" by code_simp
  have e: "List.map_filter parse_line [''# c'', ''duration_ms,value'', '''', ''abc,def'', ''1,2,3'', ''-5,1''] = []"
    by code_simp
  have r: "parse_paris ([''100,1''] @ [''50,0'']) = Inr [(100, 1), (50, 0)]" by code_simp
  from parse_error_iff_no_valid_rows[of "[''# c'', ''duration_ms,value'', '''', ''abc,def'', ''1,2,3'', ''-5,1'']"] e
  have 1: "parse_paris [''# c'', ''duration_ms,value'', '''', ''abc,def'', ''1,2,3'', ''-5,1'']
     = Inl (ValueError ''No timing rows found in file.'')" by simp
  from parse_error_iff_no_valid_rows[of _ "''# c''" "[''100,1'']" "[''50,0'']"] n
  have 2: "parse_paris ([''100,1''] @ ''# c'' # [''50,0'']) = parse_paris ([''100,1''] @ [''50,0''])"
    by blast
  from 1 e n 2 r show ?thesis by blast
qed

text \<open>
  C3. No parameter value is rejected. The local variables that the loops use are the
  four parameters saturated to their documented ranges (frequency to 50..6000, sample
  rate to an integer in 8000..192000, volume to 0..1, ramp to 0..50 ms, the ramp then
  turned into samples); the call is the loops run on these, so it returns what it
  returns on the saturated parameters; and it raises only when a duration in the rows
  overflows at line 72, whatever the four parameters are.
\<close>

theorem parameters_saturated_and_used:
  "prologue_b64 f sr v r =
     \<lparr>samplerate = \<lfloor>saturate 8000 192000 sr\<rfloor>,
      volume = saturate 0 1 v,
      freq_hz = saturate 50 6000 f,
      ramp_samples = py_int (fmul (float_of_int \<lfloor>saturate 8000 192000 sr\<rfloor>)
                                  (fdiv (saturate 0 50 r) 1000))\<rparr>
   \<and> synthesize_pcm16_b64 M rows f sr v r = rows_loop_b64 M (prologue_b64 f sr v r) rows ([], 0)
   \<and> synthesize_pcm16_b64 M rows f sr v r =
       synthesize_pcm16_b64 M rows (saturate 50 6000 f) (of_int \<lfloor>saturate 8000 192000 sr\<rfloor>)
         (saturate 0 1 v) (saturate 0 50 r)
   \<and> ((\<exists>e. synthesize_pcm16_b64 M rows f sr v r = Inl e)
        = list_ex (\<lambda>(dur_ms, val). length_overflows \<lfloor>saturate 8000 192000 sr\<rfloor> dur_ms) rows)
   \<and> 8000 \<le> \<lfloor>saturate 8000 192000 sr\<rfloor> \<and> \<lfloor>saturate 8000 192000 sr\<rfloor> \<le> 192000
   \<and> 0 \<le> saturate 0 1 v \<and> saturate 0 1 v \<le> 1
   \<and> 50 \<le> saturate 50 6000 f \<and> saturate 50 6000 f \<le> 6000
   \<and> 0 \<le> saturate 0 50 r \<and> saturate 0 50 r \<le> 50"
proof -
  have 1: "synthesize_pcm16_b64 M rows f sr v r =
       synthesize_pcm16_b64 M rows (saturate 50 6000 f) (of_int \<lfloor>saturate 8000 192000 sr\<rfloor>)
         (saturate 0 1 v) (saturate 0 50 r)"
    by (simp add: synthesize_pcm16_b64_def prologue_b64_idem)
  have 2: "(\<exists>e. synthesize_pcm16_b64 M rows f sr v r = Inl e)
        = list_ex (\<lambda>(dur_ms, val). length_overflows \<lfloor>saturate 8000 192000 sr\<rfloor> dur_ms) rows"
    unfolding overflow_rows_case clamp_samplerate_floor[symmetric]
    by (rule synthesize_pcm16_b64_error_iff)
  have 3: "8000 \<le> \<lfloor>saturate 8000 192000 sr\<rfloor> \<and> \<lfloor>saturate 8000 192000 sr\<rfloor> \<le> 192000"
    using saturate_range[of 8000 192000 sr] by (simp add: le_floor_iff floor_le_iff)
  show ?thesis
    using 1 2 3 saturate_range[of 0 1 v] saturate_range[of 50 6000 f] saturate_range[of 0 50 r]
    by (simp add: prologue_b64_saturate[symmetric] synthesize_pcm16_b64_def)
qed

text \<open>
  C4. The running index starts at 0 and equals the number of samples written so far
  (half the length of the buffer), whatever segments came before. A tone segment that
  starts at running index \<open>t\<close> writes at local index \<open>n\<close> the sample whose sine
  argument is \<open>two_pi * freq_hz * ((t + n) / samplerate)\<close>: the absolute position, not
  \<open>n\<close>. In a tone, silence, tone schedule the second tone therefore has at local index
  \<open>n\<close> the sine argument of position \<open>max 0 L1 + max 0 L2 + n\<close>, the argument an
  uninterrupted tone has at that position (as the first tone shows, whose positions
  start at 0).
\<close>

theorem tone_phase_uses_running_index:
  assumes "synthesize_pcm16_b64 M pre f sr v r = Inr (frames, t)"
    and "seg_len_b64 (clamp_samplerate sr) dur_ms = Inr L"
    and "seg_len_b64 (clamp_samplerate sr) d1 = Inr L1"
    and "seg_len_b64 (clamp_samplerate sr) d2 = Inr L2"
    and "seg_len_b64 (clamp_samplerate sr) d3 = Inr L3"
  shows "synthesize_pcm16_b64 M [] f sr v r = Inr ([], 0)
   \<and> int (length frames) = 2 * t
   \<and> synthesize_pcm16_b64 M (pre @ [(dur_ms, 1)]) f sr v r =
       Inr (frames
            @ concat (map (\<lambda>n. le16 (quantize_b64 (fmul
                  (fmul (clamp_volume v)
                     (envelope_b64 M (ramp_samples_b64 (clamp_samplerate sr) (clamp_ramp r)) L n))
                  (math_sin M (fmul (fmul (fmul 2 pi64) (clamp_freq f))
                                    (fdiv (of_int (t + n)) (of_int (clamp_samplerate sr))))))))
                [0..L - 1]),
            t + max 0 L)
   \<and> synthesize_pcm16_b64 M [(d1, 1), (d2, 0), (d3, 1)] f sr v r =
       Inr (concat (map (\<lambda>n. le16 (quantize_b64 (fmul
                  (fmul (clamp_volume v)
                     (envelope_b64 M (ramp_samples_b64 (clamp_samplerate sr) (clamp_ramp r)) L1 n))
                  (math_sin M (fmul (fmul (fmul 2 pi64) (clamp_freq f))
                                    (fdiv (of_int n) (of_int (clamp_samplerate sr))))))))
                [0..L1 - 1])
            @ replicate (2 * nat L2) 0
            @ concat (map (\<lambda>n. le16 (quantize_b64 (fmul
                  (fmul (clamp_volume v)
                     (envelope_b64 M (ramp_samples_b64 (clamp_samplerate sr) (clamp_ramp r)) L3 n))
                  (math_sin M (fmul (fmul (fmul 2 pi64) (clamp_freq f))
                                    (fdiv (of_int (max 0 L1 + max 0 L2 + n))
                                          (of_int (clamp_samplerate sr))))))))
                [0..L3 - 1]),
            max 0 L1 + max 0 L2 + max 0 L3)"
proof -
  let ?E = "prologue_b64 f sr v r"
  have 1: "synthesize_pcm16_b64 M [] f sr v r = Inr ([], 0)"
    by (rule synthesize_pcm16_b64_Nil)
  have 2: "int (length frames) = 2 * t"
    using assms(1) by (rule synthesize_pcm16_b64_length)
  note 3 = tone_segment_b64[OF assms(1) assms(2)]
  have a: "synthesize_pcm16_b64 M [(d1, 1)] f sr v r =
      Inr (concat (map le16 (tone_samples_b64 M ?E L1 0)), max 0 L1)"
    using tone_segment_b64[OF 1 assms(3)] by simp
  have b: "synthesize_pcm16_b64 M [(d1, 1), (d2, 0)] f sr v r =
      Inr (concat (map le16 (tone_samples_b64 M ?E L1 0)) @ replicate (2 * nat L2) 0,
           max 0 L1 + max 0 L2)"
    using synthesize_pcm16_b64_append[OF a, of "[(d2, 0)]"] assms(4)
    by (simp add: samplerate_prologue_b64 zero_frames)
  have c: "synthesize_pcm16_b64 M [(d1, 1), (d2, 0), (d3, 1)] f sr v r =
      Inr (concat (map le16 (tone_samples_b64 M ?E L1 0))
           @ replicate (2 * nat L2) 0
           @ concat (map le16 (tone_samples_b64 M ?E L3 (max 0 L1 + max 0 L2))),
           max 0 L1 + max 0 L2 + max 0 L3)"
    using tone_segment_b64[OF b assms(5)] by simp
  show ?thesis
    using 1 2 3 c
    by (simp add: concat_le16_tone_samples_b64 tone_value_b64_eq ramp_samples_prologue_b64)
qed

theorem tone_phase_uses_running_index_witness:
  "synthesize_pcm16_b64 libm_rounded [] 700 44100 (1 / 2) 5 = Inr ([], 0)
   \<and> seg_len_b64 (clamp_samplerate 44100) 85 = Inr 3749
   \<and> seg_len_b64 (clamp_samplerate 44100) 10 = Inr 441
   \<and> (\<exists>first second.
         synthesize_pcm16_b64 libm_rounded [(85, 1), (10, 0), (10, 1)] 700 44100 (1 / 2) 5
           = Inr (first @ replicate 882 0 @ second, 4631)
         \<and> second = concat (map (\<lambda>n. le16 (quantize_b64 (fmul
                  (fmul (clamp_volume (1 / 2))
                     (envelope_b64 libm_rounded (ramp_samples_b64 44100 (clamp_ramp 5)) 441 n))
                  (math_sin libm_rounded (fmul (fmul (fmul 2 pi64) (clamp_freq 700))
                                    (fdiv (of_int (4190 + n)) (of_int 44100)))))))
                [0..440]))"
proof -
  have a: "synthesize_pcm16_b64 libm_rounded [] 700 44100 (1 / 2) 5 = Inr ([], 0)"
    by (rule synthesize_pcm16_b64_Nil)
  have b: "seg_len_b64 (clamp_samplerate 44100) 85 = Inr 3749"
    by (simp add: clamp_samplerate_44100 seg_len_b64_44100_85)
  have c: "seg_len_b64 (clamp_samplerate 44100) 10 = Inr 441"
    by (simp add: clamp_samplerate_44100 seg_len_b64_44100_10)
  note w = tone_phase_uses_running_index[OF a c b c c]
  from w have "synthesize_pcm16_b64 libm_rounded [(85, 1), (10, 0), (10, 1)] 700 44100 (1 / 2) 5 =
       Inr (concat (map (\<lambda>n. le16 (quantize_b64 (fmul
                  (fmul (clamp_volume (1 / 2))
                     (envelope_b64 libm_rounded (ramp_samples_b64 (clamp_samplerate 44100) (clamp_ramp 5)) 3749 n))
                  (math_sin libm_rounded (fmul (fmul (fmul 2 pi64) (clamp_freq 700))
                                    (fdiv (of_int n) (of_int (clamp_samplerate 44100))))))))
                [0..3749 - 1])
            @ replicate (2 * nat 441) 0
            @ concat (map (\<lambda>n. le16 (quantize_b64 (fmul
                  (fmul (clamp_volume (1 / 2))
                     (envelope_b64 libm_rounded (ramp_samples_b64 (clamp_samplerate 44100) (clamp_ramp 5)) 441 n))
                  (math_sin libm_rounded (fmul (fmul (fmul 2 pi64) (clamp_freq 700))
                                    (fdiv (of_int (max 0 3749 + max 0 441 + n))
                                          (of_int (clamp_samplerate 44100))))))))
                [0..441 - 1]),
            max 0 3749 + max 0 441 + max 0 441)"
    by blast
  then have "synthesize_pcm16_b64 libm_rounded [(85, 1), (10, 0), (10, 1)] 700 44100 (1 / 2) 5 =
       Inr (concat (map (\<lambda>n. le16 (quantize_b64 (fmul
                  (fmul (clamp_volume (1 / 2))
                     (envelope_b64 libm_rounded (ramp_samples_b64 44100 (clamp_ramp 5)) 3749 n))
                  (math_sin libm_rounded (fmul (fmul (fmul 2 pi64) (clamp_freq 700))
                                    (fdiv (of_int n) (of_int 44100)))))))
                [0..3748])
            @ replicate 882 0
            @ concat (map (\<lambda>n. le16 (quantize_b64 (fmul
                  (fmul (clamp_volume (1 / 2))
                     (envelope_b64 libm_rounded (ramp_samples_b64 44100 (clamp_ramp 5)) 441 n))
                  (math_sin libm_rounded (fmul (fmul (fmul 2 pi64) (clamp_freq 700))
                                    (fdiv (of_int (4190 + n)) (of_int 44100)))))))
                [0..440]),
            4631)"
    unfolding clamp_samplerate_44100 by (simp del: upto.simps)
  with a b c show ?thesis by blast
qed

text \<open>
  C5. With \<open>ramp_samples > 0\<close>, the sample at every local index \<open>n\<close> of a tone segment
  is computed with the envelope chosen fade-in first: the raised cosine of \<open>n\<close> when
  \<open>n < ramp_samples\<close>, otherwise the raised cosine of \<open>k = seg_len - n\<close> when
  \<open>seg_len - n \<le> ramp_samples\<close>, otherwise 1. Whatever the segment length (so also
  when the two windows overlap), every \<open>n < ramp_samples\<close> gets the fade-in value alone.
\<close>

theorem envelope_branches_fade_in_first:
  assumes "synthesize_pcm16_b64 M pre f sr v r = Inr (frames, t)"
    and "seg_len_b64 (clamp_samplerate sr) dur_ms = Inr L"
    and "ramp_samples_b64 (clamp_samplerate sr) (clamp_ramp r) = rs"
    and "0 < rs"
  shows "synthesize_pcm16_b64 M (pre @ [(dur_ms, 1)]) f sr v r =
      Inr (frames
           @ concat (map (\<lambda>n. le16 (quantize_b64 (fmul
                 (fmul (clamp_volume v)
                    (if n < rs then
                       fmul 0.5 (fsub 1 (math_cos M
                         (fdiv (fmul pi64 (float_of_int n)) (float_of_int rs))))
                     else if L - n \<le> rs then
                       fmul 0.5 (fsub 1 (math_cos M
                         (fdiv (fmul pi64 (float_of_int (L - n))) (float_of_int rs))))
                     else 1))
                 (math_sin M (fmul (fmul (fmul 2 pi64) (clamp_freq f))
                                   (fdiv (of_int (t + n)) (of_int (clamp_samplerate sr))))))))
               [0..L - 1]),
           t + max 0 L)
    \<and> (\<forall>seg_len n. n < rs \<longrightarrow>
          envelope_b64 M rs seg_len n =
            fmul 0.5 (fsub 1 (math_cos M (fdiv (fmul pi64 (float_of_int n)) (float_of_int rs)))))"
  using tone_segment_b64[OF assms(1) assms(2)] assms(3) assms(4)
  by (simp add: concat_le16_tone_samples_b64 tone_value_b64_eq ramp_samples_prologue_b64
      envelope_b64_with_ramp)

theorem envelope_branches_fade_in_first_witness:
  "synthesize_pcm16_b64 libm_rounded [] 700 48000 (1 / 2) 9 = Inr ([], 0)
   \<and> seg_len_b64 (clamp_samplerate 48000) 30 = Inr 1440
   \<and> ramp_samples_b64 (clamp_samplerate 48000) (clamp_ramp 9) = 431
   \<and> (0 :: int) < 431
   \<and> (\<exists>frames. synthesize_pcm16_b64 libm_rounded [(30, 1)] 700 48000 (1 / 2) 9
         = Inr (frames, 1440))
   \<and> (430 :: int) < 431
   \<and> envelope_b64 libm_rounded 431 1440 430 =
        fmul 0.5 (fsub 1 (math_cos libm_rounded
          (fdiv (fmul pi64 (float_of_int 430)) (float_of_int 431))))"
proof -
  have a: "synthesize_pcm16_b64 libm_rounded [] 700 48000 (1 / 2) 9 = Inr ([], 0)"
    by (rule synthesize_pcm16_b64_Nil)
  have b: "seg_len_b64 (clamp_samplerate 48000) 30 = Inr 1440"
    by (simp add: clamp_samplerate_48000 seg_len_b64_48000_30)
  have r9: "clamp_ramp 9 = 9" by (simp add: clamp_ramp_def)
  have c: "ramp_samples_b64 (clamp_samplerate 48000) (clamp_ramp 9) = 431"
    by (simp add: clamp_samplerate_48000 r9 ramp_samples_b64_48000_9)
  have d: "(0 :: int) < 431" by simp
  note w = envelope_branches_fade_in_first[OF a b c d]
  from w have e: "envelope_b64 libm_rounded 431 1440 430 =
        fmul 0.5 (fsub 1 (math_cos libm_rounded
          (fdiv (fmul pi64 (float_of_int 430)) (float_of_int 431))))"
    by simp
  from w have "\<exists>frames. synthesize_pcm16_b64 libm_rounded ([] @ [(30, 1)]) 700 48000 (1 / 2) 9
         = Inr (frames, 0 + max 0 1440)"
    by blast
  then have "\<exists>frames. synthesize_pcm16_b64 libm_rounded [(30, 1)] 700 48000 (1 / 2) 9
         = Inr (frames, 1440)" by simp
  with a b c e show ?thesis by simp
qed










end
